theory Spec2Isabelle
  imports Complex_Main "HOL-Library.Word"
begin

section \<open>Values of the host language\<close>

text \<open>
  The application is a React component (\<^verbatim>\<open>src/App.tsx\<close>) over a small service module
  (\<^verbatim>\<open>src/services/geminiService.ts\<close>). A JavaScript string is a sequence of UTF-16 code
  units; it is modelled as the list of their numbers, so that every text the program can
  receive has a model. \<open>lit\<close> embeds the ASCII literals of the source.
\<close>

type_synonym jsstring = "nat list"

definition lit :: "string \<Rightarrow> jsstring" where
  "lit s = map of_char s"

text \<open>
  \<^verbatim>\<open>String.prototype.trim\<close> removes WhiteSpace and LineTerminator code points
  (ECMAScript 12.2 and 12.3) from both ends.
\<close>

definition isWhiteSpace :: "nat \<Rightarrow> bool" where
  "isWhiteSpace c \<longleftrightarrow>
     c \<in> {0x09, 0x0A, 0x0B, 0x0C, 0x0D, 0x20, 0xA0, 0x1680, 0x2028, 0x2029, 0x202F,
          0x205F, 0x3000, 0xFEFF}
     \<or> (0x2000 \<le> c \<and> c \<le> 0x200A)"

definition trim :: "jsstring \<Rightarrow> jsstring" where
  "trim s = rev (dropWhile isWhiteSpace (rev (dropWhile isWhiteSpace s)))"

text \<open>
  A thrown value. Everything thrown on the paths modelled here is an \<^verbatim>\<open>Error\<close> object;
  only its \<^verbatim>\<open>message\<close> is read.
\<close>

datatype jserror = Error (message: jsstring)

text \<open>
  The value held by the \<^verbatim>\<open>history\<close> state is whatever \<^verbatim>\<open>JSON.parse\<close> returned at start-up
  (TypeScript types that result as \<^verbatim>\<open>any\<close>), so it is modelled as a dynamically typed value.
\<close>

datatype jsval =
    JNull
  | JBool bool
  | JNum real
  | JStr jsstring
  | JArr "jsval list"
  | JObj "(jsstring \<times> jsval) list"

text \<open>
  \<^verbatim>\<open>TranslationResult\<close> is declared in \<^verbatim>\<open>./types\<close>; its fields are those of the object literal
  built in \<^verbatim>\<open>handleTranslateAndSpeak\<close> (App.tsx lines 55-61), kept in that order.
\<close>

definition translationResult :: "jsstring \<Rightarrow> jsstring \<Rightarrow> jsstring \<Rightarrow> jsstring \<Rightarrow> int \<Rightarrow> jsval" where
  "translationResult original translated srcLang tgtLang time = JObj
     [(lit ''originalText'', JStr original),
      (lit ''translatedText'', JStr translated),
      (lit ''sourceLang'', JStr srcLang),
      (lit ''targetLang'', JStr tgtLang),
      (lit ''timestamp'', JNum (of_int time))]"

type_synonym VoiceName = jsstring

section \<open>Audio objects\<close>

text \<open>
  The Web Audio objects the component holds: the decoded buffer, the context (created
  once, at 24 kHz) and the buffer source nodes. A node is \<open>playing\<close> from \<^verbatim>\<open>start()\<close> until
  it reaches the end of its buffer or is stopped. The only handler the source ever
  installs on a node is \<^verbatim>\<open>() => setIsPlaying(false)\<close>.
\<close>

type_synonym byte = "8 word"

record AudioBuffer =
  numberOfChannels :: nat
  sampleRate :: nat
  channelData :: "real list list"

datatype AudioContext = AudioContext nat

datatype handler = SetIsPlayingFalse

record AudioBufferSourceNode =
  buffer :: AudioBuffer
  playing :: bool
  onended :: "handler option"

datatype cause = ReachedEnd | Stopped

section \<open>The service module\<close>

text \<open>
  The hosted model is reached through \<^verbatim>\<open>ai.models.generateContent\<close>. Each request is
  recorded in a log, so that "no network interaction" is a statement about that log.
\<close>

datatype call =
    TranslateCall jsstring
  | SpeechCall jsstring VoiceName

text \<open>
  What the component does not compute itself: the two hosted models, the two helpers of
  \<^verbatim>\<open>./utils/audio\<close>, the JSON built-ins and the clock. They are parameters of the model;
  every theorem below holds for all of them.
  \<^item> \<open>translationModel contents\<close>: the request of \<^verbatim>\<open>translateText\<close>; it throws, or returns
    \<^verbatim>\<open>response.text\<close>, which may be undefined.
  \<^item> \<open>speechModel text voice\<close>: the request of \<^verbatim>\<open>generateSpeech\<close>; it throws, or returns
    \<^verbatim>\<open>response.candidates?.[0]?.content?.parts?.[0]?.inlineData?.data\<close>.
  \<^item> \<open>notIterable\<close>: the TypeError of spreading a value that is not iterable.
\<close>

record env =
  translationModel :: "jsstring \<Rightarrow> jserror + jsstring option"
  speechModel :: "jsstring \<Rightarrow> VoiceName \<Rightarrow> jserror + jsstring option"
  decode :: "jsstring \<Rightarrow> jserror + byte list"
  decodeAudioData :: "byte list \<Rightarrow> nat \<Rightarrow> nat \<Rightarrow> jserror + AudioBuffer"
  JSON_parse :: "jsstring \<Rightarrow> jserror + jsval"
  JSON_stringify :: "jsval \<Rightarrow> jsstring"
  Date_now :: int
  notIterable :: jserror

text \<open>
  \<^verbatim>\<open>translateText\<close> (geminiService.ts lines 7-19). \<^verbatim>\<open>response.text || ''\<close> turns an undefined
  text into the empty string and leaves every string as it is.
\<close>

definition translateText ::
    "env \<Rightarrow> jsstring \<Rightarrow> jsstring \<Rightarrow> jsstring \<Rightarrow> call list \<Rightarrow> (jserror + jsstring) \<times> call list" where
  "translateText e text srcLang tgtLang sent =
     (if srcLang = tgtLang then (Inr text, sent)
      else
        let contents =
              lit ''Translate the following text from '' @ srcLang @ lit '' to '' @ tgtLang
              @ lit ''. Only return the translated text without any explanations or extra characters: ''
              @ [0x22] @ text @ [0x22]
        in (case translationModel e contents of
              Inl err \<Rightarrow> Inl err
            | Inr response_text \<Rightarrow> Inr (case response_text of None \<Rightarrow> [] | Some t \<Rightarrow> t),
            sent @ [TranslateCall contents]))"

text \<open>
  \<^verbatim>\<open>generateSpeech\<close> (geminiService.ts lines 21-38): a payload that is undefined or the empty
  string is the error "No audio data returned".
\<close>

definition generateSpeech ::
    "env \<Rightarrow> jsstring \<Rightarrow> VoiceName \<Rightarrow> call list \<Rightarrow> (jserror + jsstring) \<times> call list" where
  "generateSpeech e text voiceName sent =
     (case speechModel e text voiceName of
        Inl err \<Rightarrow> Inl err
      | Inr base64Audio \<Rightarrow>
          (case base64Audio of
             None \<Rightarrow> Inl (Error (lit ''No audio data returned''))
           | Some d \<Rightarrow> if d = [] then Inl (Error (lit ''No audio data returned'')) else Inr d),
      sent @ [SpeechCall text voiceName])"

section \<open>The component\<close>

text \<open>
  The React state of \<^verbatim>\<open>App\<close> (lines 13-24), followed by the part of the browser it acts on:
  \<open>localStorage\<close>, the source nodes created so far (a node is named by its index), the
  \<^verbatim>\<open>ended\<close> events the browser has queued and not yet delivered, the requests sent to the
  hosted models, and the console.
\<close>

record app =
  inputText :: jsstring
  translatedText :: jsstring
  sourceLang :: jsstring
  targetLang :: jsstring
  selectedVoice :: VoiceName
  isLoading :: bool
  isPlaying :: bool
  history :: jsval
  error :: "jsstring option"
  audioContextRef :: "AudioContext option"
  sourceNodeRef :: "nat option"
  localStorage :: "jsstring \<rightharpoonup> jsstring"
  nodes :: "AudioBufferSourceNode list"
  events :: "(nat \<times> cause) list"
  calls :: "call list"
  console :: "jsstring list"

definition initialApp :: "(jsstring \<rightharpoonup> jsstring) \<Rightarrow> app" where
  "initialApp storage =
     \<lparr>inputText = [], translatedText = [], sourceLang = lit ''en'', targetLang = lit ''es'',
      selectedVoice = lit ''Zephyr'', isLoading = False, isPlaying = False,
      history = JArr [], error = None, audioContextRef = None, sourceNodeRef = None,
      localStorage = storage, nodes = [], events = [], calls = [], console = []\<rparr>"

subsection \<open>History\<close>

text \<open>
  The effect run once after mounting (lines 26-36). \<^verbatim>\<open>if (saved)\<close> is false for a missing
  key and for the empty string. A value that \<^verbatim>\<open>JSON.parse\<close> accepts becomes the history as
  it is.
\<close>

definition loadHistory :: "env \<Rightarrow> app \<Rightarrow> app" where
  "loadHistory e st =
     (case localStorage st (lit ''vox_history'') of
        None \<Rightarrow> st
      | Some saved \<Rightarrow>
          if saved = [] then st
          else (case JSON_parse e saved of
                  Inl err \<Rightarrow> st\<lparr>console := console st @ [lit ''Failed to parse history'']\<rparr>
                | Inr v \<Rightarrow> st\<lparr>history := v\<rparr>))"

definition mount :: "env \<Rightarrow> (jsstring \<rightharpoonup> jsstring) \<Rightarrow> app" where
  "mount e storage = loadHistory e (initialApp storage)"

text \<open>
  Array spread \<^verbatim>\<open>[...v]\<close>: the elements of an array, the code points of a string (a
  surrogate pair stays one element), a TypeError for every other value of \<open>jsval\<close>.
\<close>

fun codePoints :: "jsstring \<Rightarrow> jsstring list" where
  "codePoints (c # d # cs) =
     (if 0xD800 \<le> c \<and> c \<le> 0xDBFF \<and> 0xDC00 \<le> d \<and> d \<le> 0xDFFF
      then [c, d] # codePoints cs else [c] # codePoints (d # cs))"
| "codePoints [c] = [[c]]"
| "codePoints [] = []"

fun spread :: "env \<Rightarrow> jsval \<Rightarrow> jserror + jsval list" where
  "spread e (JArr xs) = Inr xs"
| "spread e (JStr s) = Inr (map JStr (codePoints s))"
| "spread e v = Inl (notIterable e)"

text \<open>
  \<^verbatim>\<open>saveToHistory\<close> (lines 38-42). The function closes over the \<^verbatim>\<open>history\<close> of the render that
  created it; that value is the argument \<open>hist\<close>. \<open>localStorage\<close> is a map: a write always
  succeeds (no quota).
\<close>

definition saveToHistory :: "env \<Rightarrow> jsval \<Rightarrow> jsval \<Rightarrow> app \<Rightarrow> jserror + app" where
  "saveToHistory e hist result st =
     (case spread e hist of
        Inl err \<Rightarrow> Inl err
      | Inr items \<Rightarrow>
          let newHistory = JArr (take 10 (result # items))
          in Inr (st\<lparr>history := newHistory,
                    localStorage := (localStorage st)(lit ''vox_history'' \<mapsto> JSON_stringify e newHistory)\<rparr>))"

text \<open>\<^verbatim>\<open>clearHistory\<close> (lines 111-114).\<close>

definition clearHistory :: "app \<Rightarrow> app" where
  "clearHistory st =
     st\<lparr>history := JArr [], localStorage := (localStorage st)(lit ''vox_history'' := None)\<rparr>"

subsection \<open>Playback\<close>

text \<open>
  \<^verbatim>\<open>stop()\<close> on a node: a playing node stops, and the browser queues its \<^verbatim>\<open>ended\<close> event
  (Web Audio API, AudioScheduledSourceNode: the event is dispatched when the node has
  stopped playing, whether the buffer was played to its end or the stop time was
  reached). On a node that has already finished, \<^verbatim>\<open>stop()\<close> does nothing.
\<close>

definition stopNode :: "nat \<Rightarrow> app \<Rightarrow> app" where
  "stopNode i st =
     (if i < length (nodes st) \<and> playing (nodes st ! i)
      then st\<lparr>nodes := (nodes st)[i := (nodes st ! i)\<lparr>playing := False\<rparr>],
              events := events st @ [(i, Stopped)]\<rparr>
      else st)"

text \<open>The browser's side: a playing node reaches the end of its buffer.\<close>

definition playbackReachesEnd :: "nat \<Rightarrow> app \<Rightarrow> app" where
  "playbackReachesEnd i st =
     (if i < length (nodes st) \<and> playing (nodes st ! i)
      then st\<lparr>nodes := (nodes st)[i := (nodes st ! i)\<lparr>playing := False\<rparr>],
              events := events st @ [(i, ReachedEnd)]\<rparr>
      else st)"

text \<open>The browser delivers the oldest queued \<^verbatim>\<open>ended\<close> event to the node's handler.\<close>

definition dispatchEnded :: "app \<Rightarrow> app" where
  "dispatchEnded st =
     (case events st of
        [] \<Rightarrow> st
      | (i, c) # rest \<Rightarrow>
          let st1 = st\<lparr>events := rest\<rparr>
          in if i < length (nodes st)
             then (case onended (nodes st ! i) of
                     Some SetIsPlayingFalse \<Rightarrow> st1\<lparr>isPlaying := False\<rparr>
                   | None \<Rightarrow> st1)
             else st1)"

text \<open>
  Lines 93-96 of \<^verbatim>\<open>speakText\<close>: stop the node \<^verbatim>\<open>sourceNodeRef\<close> holds, if there is one.
\<close>

definition stopCurrent :: "app \<Rightarrow> app" where
  "stopCurrent st = (case sourceNodeRef st of Some i \<Rightarrow> stopNode i st | None \<Rightarrow> st)"

text \<open>
  Lines 98-103: create a node, give it the buffer and the handler, start it and remember
  it. No \<^verbatim>\<open>await\<close> stands between line 93 and line 103, so the two definitions run as one
  step whatever else is in flight.
\<close>

definition startSource :: "AudioBuffer \<Rightarrow> app \<Rightarrow> app" where
  "startSource audioBuffer st =
     (let source = length (nodes st)
      in st\<lparr>nodes := nodes st @
                [\<lparr>buffer = audioBuffer, playing = True, onended = Some SetIsPlayingFalse\<rparr>],
             sourceNodeRef := Some source\<rparr>)"

text \<open>The \<^verbatim>\<open>catch\<close> block of \<^verbatim>\<open>speakText\<close> (lines 105-108).\<close>

definition speakFailed :: "jserror \<Rightarrow> app \<Rightarrow> app" where
  "speakFailed err st =
     st\<lparr>error := Some (lit ''Speech synthesis failed: '' @ message err), isPlaying := False\<rparr>"

text \<open>
  \<^verbatim>\<open>speakText\<close> (lines 72-109). \<^verbatim>\<open>!text\<close> holds for the empty string only. The voice is the
  \<^verbatim>\<open>selectedVoice\<close> of the render the call was made from. The context is created on first
  use and kept; its constructor is taken to succeed. The two \<^verbatim>\<open>await\<close>s are modelled as
  returning before any other handler runs.
\<close>

definition speakText :: "env \<Rightarrow> jsstring \<Rightarrow> app \<Rightarrow> app" where
  "speakText e text st =
     (if text = [] then st
      else
        let st1 = st\<lparr>isPlaying := True\<rparr>;
            (r, sent) = generateSpeech e text (selectedVoice st) (calls st1);
            st2 = st1\<lparr>calls := sent\<rparr>
        in (case r of
              Inl err \<Rightarrow> speakFailed err st2
            | Inr base64Audio \<Rightarrow>
                let st3 = (case audioContextRef st2 of
                             None \<Rightarrow> st2\<lparr>audioContextRef := Some (AudioContext 24000)\<rparr>
                           | Some ctx \<Rightarrow> st2)
                in (case decode e base64Audio of
                      Inl err \<Rightarrow> speakFailed err st3
                    | Inr bytes \<Rightarrow>
                        (case decodeAudioData e bytes 24000 1 of
                           Inl err \<Rightarrow> speakFailed err st3
                         | Inr audioBuffer \<Rightarrow> startSource audioBuffer (stopCurrent st3)))))"

subsection \<open>Translate and speak\<close>

text \<open>The \<^verbatim>\<open>catch\<close> block of \<^verbatim>\<open>handleTranslateAndSpeak\<close> (lines 65-66).\<close>

definition handleFailed :: "jserror \<Rightarrow> app \<Rightarrow> app" where
  "handleFailed err st =
     st\<lparr>error := Some (if message err = [] then lit ''An unexpected error occurred''
                       else message err)\<rparr>"

text \<open>
  \<^verbatim>\<open>handleTranslateAndSpeak\<close> (lines 44-70), run from its call to its \<^verbatim>\<open>finally\<close> block with
  no other handler in between. The values it reads (\<^verbatim>\<open>inputText\<close>, the two languages,
  \<^verbatim>\<open>history\<close>) are those of the render the call was made from, that is of \<open>st\<close>. The early
  \<^verbatim>\<open>return\<close> of line 45 stands before the \<^verbatim>\<open>try\<close>, so the \<^verbatim>\<open>finally\<close> block does not run for a
  blank input. \<^verbatim>\<open>speakText\<close> catches its own errors, so the outer \<^verbatim>\<open>catch\<close> is reached from
  the translation and from \<^verbatim>\<open>saveToHistory\<close> only.
\<close>

definition handleTranslateAndSpeak :: "env \<Rightarrow> app \<Rightarrow> app" where
  "handleTranslateAndSpeak e st =
     (if trim (inputText st) = [] then st
      else
        let st1 = st\<lparr>isLoading := True, error := None\<rparr>;
            (r, sent) = translateText e (inputText st) (sourceLang st) (targetLang st) (calls st1);
            st2 = st1\<lparr>calls := sent\<rparr>;
            st3 = (case r of
                     Inl err \<Rightarrow> handleFailed err st2
                   | Inr translation \<Rightarrow>
                       (case saveToHistory e (history st)
                               (translationResult (inputText st) translation (sourceLang st)
                                  (targetLang st) (Date_now e))
                               (st2\<lparr>translatedText := translation\<rparr>) of
                          Inl err \<Rightarrow> handleFailed err (st2\<lparr>translatedText := translation\<rparr>)
                        | Inr st4 \<Rightarrow> speakText e translation st4))
        in st3\<lparr>isLoading := False\<rparr>)"

subsection \<open>Runs of the component\<close>

text \<open>
  A sequence of appends, each made from a render that sees the history the one before
  left.
\<close>

fun appendAll :: "env \<Rightarrow> jsval list \<Rightarrow> app \<Rightarrow> jserror + app" where
  "appendAll e [] st = Inr st"
| "appendAll e (r # rs) st =
     (case saveToHistory e (history st) r st of
        Inl err \<Rightarrow> Inl err
      | Inr st' \<Rightarrow> appendAll e rs st')"

text \<open>The nodes that are playing, and the requests made to the speech model.\<close>

definition playingNodes :: "app \<Rightarrow> nat list" where
  "playingNodes st = filter (\<lambda>i. playing (nodes st ! i)) [0..<length (nodes st)]"

fun isSpeechCall :: "call \<Rightarrow> bool" where
  "isSpeechCall (SpeechCall text voiceName) = True"
| "isSpeechCall (TranslateCall contents) = False"

text \<open>
  The states the component can be in: it is mounted on some storage; then the user edits
  the fields (the setters of lines 13-17, also used by a click on a history entry),
  submits, replays, clears the history, and the browser ends playbacks and delivers
  events, in any order. The environment may answer differently at every step.
\<close>

inductive reachable :: "app \<Rightarrow> bool" where
  mounted: "reachable (mount e storage)"
| setInputText: "reachable st \<Longrightarrow> reachable (st\<lparr>inputText := v\<rparr>)"
| setTranslatedText: "reachable st \<Longrightarrow> reachable (st\<lparr>translatedText := v\<rparr>)"
| setSourceLang: "reachable st \<Longrightarrow> reachable (st\<lparr>sourceLang := v\<rparr>)"
| setTargetLang: "reachable st \<Longrightarrow> reachable (st\<lparr>targetLang := v\<rparr>)"
| setSelectedVoice: "reachable st \<Longrightarrow> reachable (st\<lparr>selectedVoice := v\<rparr>)"
| submitted: "reachable st \<Longrightarrow> reachable (handleTranslateAndSpeak e st)"
| spoken: "reachable st \<Longrightarrow> reachable (speakText e text st)"
| cleared: "reachable st \<Longrightarrow> reachable (clearHistory st)"
| finished: "reachable st \<Longrightarrow> reachable (playbackReachesEnd i st)"
| delivered: "reachable st \<Longrightarrow> reachable (dispatchEnded st)"

text \<open>
  The invariant behind "one session at a time": a node that is playing is the one
  \<^verbatim>\<open>sourceNodeRef\<close> holds.
\<close>

definition sessionInv :: "app \<Rightarrow> bool" where
  "sessionInv st \<longleftrightarrow>
     (\<forall>i<length (nodes st). playing (nodes st ! i) \<longrightarrow> sourceNodeRef st = Some i)"

section \<open>The PCM decoder\<close>

text \<open>
  Modelled from the spec: \<^verbatim>\<open>bytesToAudioBuffer\<close> is \<^verbatim>\<open>decodeAudioData\<close> of \<^verbatim>\<open>./utils/audio\<close>, which
  is imported by App.tsx and is not among the sources. The definition follows section
  4.1 of the specification: the bytes are signed 16-bit little-endian samples,
  interleaved by channel; the frame count is \<open>byteLength div 2 div channelCount\<close>; a
  sample is divided by 32768; fewer than 2 bytes are an \<open>EmptyAudioError\<close>. Dividing a
  16-bit integer by 32768 is exact in binary floating point, so the samples are given as
  reals.
\<close>

datatype audio_error = DecodeError | EmptyAudioError | PlaybackError

fun pcm16 :: "byte list \<Rightarrow> int list" where
  "pcm16 (lo # hi # rest) =
     (let u = uint lo + 256 * uint hi in if u < 32768 then u else u - 65536) # pcm16 rest"
| "pcm16 [b] = []"
| "pcm16 [] = []"

definition bytesToAudioBuffer :: "byte list \<Rightarrow> nat \<Rightarrow> nat \<Rightarrow> audio_error + AudioBuffer" where
  "bytesToAudioBuffer bytes rate channelCount =
     (if length bytes < 2 then Inl EmptyAudioError
      else
        let samples = pcm16 bytes;
            frameCount = length bytes div 2 div channelCount
        in Inr \<lparr>numberOfChannels = channelCount, sampleRate = rate,
                channelData =
                  map (\<lambda>channel.
                         map (\<lambda>i. real_of_int (samples ! (i * channelCount + channel)) / 32768)
                           [0..<frameCount])
                    [0..<channelCount]\<rparr>)"

section \<open>An environment for examples\<close>

text \<open>
  A fixed environment on which the model is evaluated in the examples below: the
  translation model answers "Hola", and the speech model returns a payload that decodes
  to one silent sample. \<open>JSON_parse\<close> stands for \<^verbatim>\<open>JSON.parse\<close> on the strings the examples
  store: it returns \<^verbatim>\<open>null\<close> on \<^verbatim>\<open>null\<close> and the empty array on \<^verbatim>\<open>[]\<close>, and throws on the others,
  of which the examples use \<^verbatim>\<open>{oops\<close>. \<open>offlineEnv\<close> is the same with the translation model
  failing.
\<close>

definition demoEnv :: env where
  "demoEnv =
     \<lparr>translationModel = (\<lambda>contents. Inr (Some (lit ''Hola''))),
      speechModel = (\<lambda>text voiceName. Inr (Some (lit ''AAA=''))),
      decode = (\<lambda>base64. Inr [0, 0]),
      decodeAudioData = (\<lambda>bytes rate channelCount.
         Inr \<lparr>numberOfChannels = channelCount, sampleRate = rate, channelData = [[0]]\<rparr>),
      JSON_parse = (\<lambda>s. if s = lit ''null'' then Inr JNull
                         else if s = lit ''[]'' then Inr (JArr [])
                         else Inl (Error (lit ''Unexpected token''))),
      JSON_stringify = (\<lambda>v. lit ''[...]''),
      Date_now = 1700000000000,
      notIterable = Error (lit ''history is not iterable'')\<rparr>"

definition offlineEnv :: env where
  "offlineEnv = demoEnv\<lparr>translationModel := (\<lambda>contents. Inl (Error (lit ''Failed to fetch'')))\<rparr>"

section \<open>The translator\<close>

text \<open>
  C3. For every text and every language code, translating from a language to itself
  returns the text unchanged and sends no request: the log of requests is the one the
  call started with. In particular "Hello" from "en" to "en" is "Hello".
\<close>

theorem translateText_same_language:
  "translateText e text l l sent = (Inr text, sent)
   \<and> translateText e (lit ''Hello'') (lit ''en'') (lit ''en'') [] = (Inr (lit ''Hello''), [])"
  by (simp add: translateText_def)

section \<open>The history\<close>

lemma saveToHistory_array:
  "saveToHistory e (JArr xs) r st =
     Inr (st\<lparr>history := JArr (r # take 9 xs),
             localStorage := (localStorage st)(lit ''vox_history'' \<mapsto> JSON_stringify e (JArr (r # take 9 xs)))\<rparr>)"
  by (simp add: saveToHistory_def Let_def)

lemma take_append_take: "take n (as @ take n bs) = take n (as @ bs)"
  by (simp add: min_def)

lemma appendAll_array:
  assumes "rs \<noteq> []" and "history st = JArr xs"
  shows "\<exists>st'. appendAll e rs st = Inr st'
           \<and> history st' = JArr (take 10 (rev rs @ xs))
           \<and> localStorage st' (lit ''vox_history'') = Some (JSON_stringify e (history st'))"
  using assms
proof (induction rs arbitrary: st xs)
  case Nil
  then show ?case by simp
next
  case (Cons r rs)
  let ?st1 = "st\<lparr>history := JArr (r # take 9 xs),
             localStorage := (localStorage st)(lit ''vox_history'' \<mapsto> JSON_stringify e (JArr (r # take 9 xs)))\<rparr>"
  have step: "saveToHistory e (history st) r st = Inr ?st1"
    using Cons.prems(2) by (simp add: saveToHistory_array)
  show ?case
  proof (cases "rs = []")
    case True
    with step show ?thesis by simp
  next
    case False
    have h1: "history ?st1 = JArr (take 10 (r # xs))" by simp
    from Cons.IH [OF False h1] obtain st' where
      st': "appendAll e rs ?st1 = Inr st'"
        "history st' = JArr (take 10 (rev rs @ take 10 (r # xs)))"
        "localStorage st' (lit ''vox_history'') = Some (JSON_stringify e (history st'))"
      by blast
    have "take 10 (rev rs @ take 10 (r # xs)) = take 10 (rev (r # rs) @ xs)"
      using take_append_take [of 10 "rev rs" "r # xs"] by simp
    with st' step show ?thesis by simp
  qed
qed

text \<open>
  C1. One append, made from a render whose history is an array, succeeds: the new history
  has the new record at index 0 and the first 9 of the old entries behind it, so at most
  10 entries, and it is written to storage. After any non-empty sequence of appends to
  an array the history is the first 10 entries of the appended records, newest first,
  followed by the old entries: at most 10 long, with the last record appended at index
  0, and storage holds that array.
\<close>

theorem history_capped:
  "(\<exists>st'. saveToHistory e (JArr xs) r st = Inr st'
       \<and> history st' = JArr (r # take 9 xs)
       \<and> length (r # take 9 xs) \<le> 10
       \<and> localStorage st' (lit ''vox_history'') = Some (JSON_stringify e (history st')))
   \<and> (history st = JArr xs \<and> rs \<noteq> [] \<longrightarrow>
         (\<exists>st' ys. appendAll e rs st = Inr st' \<and> history st' = JArr ys
            \<and> ys = take 10 (rev rs @ xs) \<and> length ys \<le> 10 \<and> ys ! 0 = last rs
            \<and> localStorage st' (lit ''vox_history'') = Some (JSON_stringify e (history st'))))"
proof (intro conjI impI)
  show "\<exists>st'. saveToHistory e (JArr xs) r st = Inr st'
       \<and> history st' = JArr (r # take 9 xs)
       \<and> length (r # take 9 xs) \<le> 10
       \<and> localStorage st' (lit ''vox_history'') = Some (JSON_stringify e (history st'))"
    by (simp add: saveToHistory_array)
next
  assume a: "history st = JArr xs \<and> rs \<noteq> []"
  then have ne: "rs \<noteq> []" and h: "history st = JArr xs" by simp_all
  from appendAll_array [OF ne h, of e] obtain st' where
    st': "appendAll e rs st = Inr st'" "history st' = JArr (take 10 (rev rs @ xs))"
      "localStorage st' (lit ''vox_history'') = Some (JSON_stringify e (history st'))"
    by blast
  have "take 10 (rev rs @ xs) ! 0 = last rs"
    using ne by (cases rs rule: rev_cases) simp_all
  with st' show "\<exists>st' ys. appendAll e rs st = Inr st' \<and> history st' = JArr ys
                 \<and> ys = take 10 (rev rs @ xs) \<and> length ys \<le> 10 \<and> ys ! 0 = last rs
                 \<and> localStorage st' (lit ''vox_history'') = Some (JSON_stringify e (history st'))"
    by simp
qed

text \<open>Eleven appends to the empty history: the first record appended is gone.\<close>

theorem history_capped_witness:
  "history (initialApp Map.empty) = JArr []
   \<and> (\<exists>st'. appendAll demoEnv (map JNum [1, 2, 3, 4, 5, 6, 7, 8, 9, 10, 11]) (initialApp Map.empty) = Inr st'
          \<and> history st' = JArr (map JNum [11, 10, 9, 8, 7, 6, 5, 4, 3, 2])
          \<and> localStorage st' (lit ''vox_history'') = Some (lit ''[...]''))"
proof -
  have h: "history (initialApp Map.empty) = JArr []" by (simp add: initialApp_def)
  from history_capped [where st = "initialApp Map.empty" and xs = "[]" and e = demoEnv
         and rs = "map JNum [1, 2, 3, 4, 5, 6, 7, 8, 9, 10, 11]"] h
  have "\<exists>st' ys. appendAll demoEnv (map JNum [1, 2, 3, 4, 5, 6, 7, 8, 9, 10, 11]) (initialApp Map.empty) = Inr st'
          \<and> history st' = JArr ys
          \<and> ys = take 10 (rev (map JNum [1, 2, 3, 4, 5, 6, 7, 8, 9, 10, 11]) @ [])
          \<and> localStorage st' (lit ''vox_history'') = Some (JSON_stringify demoEnv (history st'))"
    by simp
  then obtain st' where
    "appendAll demoEnv (map JNum [1, 2, 3, 4, 5, 6, 7, 8, 9, 10, 11]) (initialApp Map.empty) = Inr st'"
    "history st' = JArr (map JNum [11, 10, 9, 8, 7, 6, 5, 4, 3, 2])"
    "localStorage st' (lit ''vox_history'') = Some (JSON_stringify demoEnv (history st'))"
    by auto
  moreover have "JSON_stringify demoEnv v = lit ''[...]''" for v
    by (simp add: demoEnv_def)
  ultimately show ?thesis using h by simp
qed

text \<open>
  C7. After \<^verbatim>\<open>clearHistory\<close> the history is the empty array and the storage key is gone;
  mounting the component again on that storage gives the empty history. The function has
  no guard and changes nothing else.
\<close>

theorem clearHistory_then_restart:
  "history (clearHistory st) = JArr []
   \<and> localStorage (clearHistory st) (lit ''vox_history'') = None
   \<and> history (mount e (localStorage (clearHistory st))) = JArr []
   \<and> clearHistory st = st\<lparr>history := JArr [], localStorage := (localStorage st)(lit ''vox_history'' := None)\<rparr>"
  by (simp add: clearHistory_def mount_def loadHistory_def initialApp_def)

text \<open>
  C9 as amended. When the stored value is present and \<^verbatim>\<open>JSON.parse\<close> throws on it, the
  component starts with the empty history and its initial state; the failure is caught
  and logged.
\<close>

theorem loadHistory_parse_error:
  assumes "storage (lit ''vox_history'') = Some saved"
      and "JSON_parse e saved = Inl err"
  shows "history (mount e storage) = JArr []
         \<and> (mount e storage)\<lparr>console := []\<rparr> = initialApp storage
         \<and> console (mount e storage) = (if saved = [] then [] else [lit ''Failed to parse history''])"
  using assms by (simp add: mount_def loadHistory_def initialApp_def)

text \<open>A stored value that is not JSON.\<close>

theorem loadHistory_parse_error_witness:
  "[lit ''vox_history'' \<mapsto> lit ''{oops''] (lit ''vox_history'') = Some (lit ''{oops'')
   \<and> JSON_parse demoEnv (lit ''{oops'') = Inl (Error (lit ''Unexpected token''))
   \<and> history (mount demoEnv [lit ''vox_history'' \<mapsto> lit ''{oops'']) = JArr []
   \<and> console (mount demoEnv [lit ''vox_history'' \<mapsto> lit ''{oops'']) = [lit ''Failed to parse history'']"
proof -
  have present: "[lit ''vox_history'' \<mapsto> lit ''{oops''] (lit ''vox_history'') = Some (lit ''{oops'')"
    by simp
  have throws: "JSON_parse demoEnv (lit ''{oops'') = Inl (Error (lit ''Unexpected token''))"
    by (simp add: demoEnv_def lit_def)
  have "lit ''{oops'' \<noteq> []" by (simp add: lit_def)
  with loadHistory_parse_error [where storage = "[lit ''vox_history'' \<mapsto> lit ''{oops'']"
         and saved = "lit ''{oops''" and e = demoEnv, OF present throws] present throws
  show ?thesis
    by simp
qed

text \<open>
  C9 as stated fails on a stored value that is JSON and not a list: \<^verbatim>\<open>null\<close> is parsed
  without an error and becomes the history.
\<close>

theorem loadHistory_not_a_list:
  "[lit ''vox_history'' \<mapsto> lit ''null''] (lit ''vox_history'') = Some (lit ''null'')
   \<and> JSON_parse demoEnv (lit ''null'') = Inr JNull
   \<and> history (mount demoEnv [lit ''vox_history'' \<mapsto> lit ''null'']) = JNull
   \<and> history (mount demoEnv [lit ''vox_history'' \<mapsto> lit ''null'']) \<noteq> JArr []
   \<and> console (mount demoEnv [lit ''vox_history'' \<mapsto> lit ''null'']) = []"
  by (simp add: mount_def loadHistory_def initialApp_def demoEnv_def lit_def)

section \<open>Translate and speak\<close>

text \<open>
  C6. When the input is empty after trimming, \<^verbatim>\<open>handleTranslateAndSpeak\<close> returns the state
  it was called in: no flag, no history entry, no stored value and no request changes.
\<close>

theorem submit_blank:
  "trim (inputText st) = [] \<Longrightarrow> handleTranslateAndSpeak e st = st"
  by (simp add: handleTranslateAndSpeak_def)

text \<open>An input of a space, an ideographic space and a line feed.\<close>

theorem submit_blank_witness:
  "trim (inputText ((initialApp Map.empty)\<lparr>inputText := [0x20, 0x3000, 0x0A]\<rparr>)) = []
   \<and> handleTranslateAndSpeak demoEnv ((initialApp Map.empty)\<lparr>inputText := [0x20, 0x3000, 0x0A]\<rparr>)
       = (initialApp Map.empty)\<lparr>inputText := [0x20, 0x3000, 0x0A]\<rparr>"
proof -
  have blank: "trim (inputText ((initialApp Map.empty)\<lparr>inputText := [0x20, 0x3000, 0x0A]\<rparr>)) = []"
    by (simp add: trim_def isWhiteSpace_def)
  show ?thesis
    using blank submit_blank [OF blank, of demoEnv] by simp
qed

text \<open>
  C4. When the input is not blank and the translation throws, the history and the storage
  are unchanged, the error message is set (the thrown message, or the default when that
  is empty), loading has ended, no request to the speech model was added, and no
  playback state was touched.
\<close>

theorem translation_failure:
  assumes "trim (inputText st) \<noteq> []"
      and "fst (translateText e (inputText st) (sourceLang st) (targetLang st) (calls st)) = Inl err"
  shows "history (handleTranslateAndSpeak e st) = history st
         \<and> localStorage (handleTranslateAndSpeak e st) = localStorage st
         \<and> error (handleTranslateAndSpeak e st)
             = Some (if message err = [] then lit ''An unexpected error occurred'' else message err)
         \<and> isLoading (handleTranslateAndSpeak e st) = False
         \<and> filter isSpeechCall (calls (handleTranslateAndSpeak e st)) = filter isSpeechCall (calls st)
         \<and> nodes (handleTranslateAndSpeak e st) = nodes st
         \<and> isPlaying (handleTranslateAndSpeak e st) = isPlaying st"
  using assms
  by (auto simp: handleTranslateAndSpeak_def translateText_def handleFailed_def Let_def
           split: if_splits sum.splits prod.splits)

text \<open>"Hello" from "en" to "es" with the translation model unreachable.\<close>

theorem translation_failure_witness:
  "trim (inputText ((initialApp Map.empty)\<lparr>inputText := lit ''Hello''\<rparr>)) \<noteq> []
   \<and> fst (translateText offlineEnv (lit ''Hello'') (lit ''en'') (lit ''es'') []) = Inl (Error (lit ''Failed to fetch''))
   \<and> history (handleTranslateAndSpeak offlineEnv ((initialApp Map.empty)\<lparr>inputText := lit ''Hello''\<rparr>)) = JArr []
   \<and> localStorage (handleTranslateAndSpeak offlineEnv ((initialApp Map.empty)\<lparr>inputText := lit ''Hello''\<rparr>)) = Map.empty
   \<and> error (handleTranslateAndSpeak offlineEnv ((initialApp Map.empty)\<lparr>inputText := lit ''Hello''\<rparr>)) = Some (lit ''Failed to fetch'')
   \<and> filter isSpeechCall (calls (handleTranslateAndSpeak offlineEnv ((initialApp Map.empty)\<lparr>inputText := lit ''Hello''\<rparr>))) = []"
proof -
  let ?st = "(initialApp Map.empty)\<lparr>inputText := lit ''Hello''\<rparr>"
  have nonblank: "trim (inputText ?st) \<noteq> []"
    by (simp add: initialApp_def trim_def isWhiteSpace_def lit_def)
  have fails: "fst (translateText offlineEnv (inputText ?st) (sourceLang ?st) (targetLang ?st) (calls ?st))
                 = Inl (Error (lit ''Failed to fetch''))"
    by (simp add: initialApp_def translateText_def offlineEnv_def demoEnv_def lit_def)
  have msg: "lit ''Failed to fetch'' \<noteq> []" by (simp add: lit_def)
  from translation_failure [OF nonblank fails] msg
  have "history (handleTranslateAndSpeak offlineEnv ?st) = JArr []
      \<and> localStorage (handleTranslateAndSpeak offlineEnv ?st) = Map.empty
      \<and> error (handleTranslateAndSpeak offlineEnv ?st) = Some (lit ''Failed to fetch'')
      \<and> filter isSpeechCall (calls (handleTranslateAndSpeak offlineEnv ?st)) = []"
    by (simp add: initialApp_def)
  moreover from fails have "fst (translateText offlineEnv (lit ''Hello'') (lit ''en'') (lit ''es'') [])
        = Inl (Error (lit ''Failed to fetch''))"
    by (simp add: initialApp_def)
  ultimately show ?thesis using nonblank by blast
qed

section \<open>Playback\<close>

text \<open>
  C10. \<^verbatim>\<open>speakText\<close> on the empty text returns the state it was called in.
\<close>

theorem speakText_empty: "speakText e [] st = st"
  by (simp add: speakText_def)

lemma stopNode_nodes:
  "nodes (stopNode j st) =
     (if j < length (nodes st) \<and> playing (nodes st ! j)
      then (nodes st)[j := (nodes st ! j)\<lparr>playing := False\<rparr>] else nodes st)"
  by (simp add: stopNode_def)

lemma stopCurrent_silent:
  assumes inv: "sessionInv st" and i: "i < length (nodes (stopCurrent st))"
  shows "\<not> playing (nodes (stopCurrent st) ! i)"
proof (cases "sourceNodeRef st")
  case None
  then have "stopCurrent st = st" by (simp add: stopCurrent_def)
  with inv i None show ?thesis by (simp add: sessionInv_def)
next
  case (Some j)
  then have sc: "nodes (stopCurrent st) = nodes (stopNode j st)" by (simp add: stopCurrent_def)
  have len: "i < length (nodes st)"
    using i by (simp add: sc stopNode_nodes split: if_splits)
  show ?thesis
  proof (cases "i = j")
    case True
    then show ?thesis
      using len by (simp add: sc stopNode_nodes)
  next
    case False
    with inv len Some have "\<not> playing (nodes st ! i)"
      by (auto simp: sessionInv_def)
    with False len show ?thesis
      by (simp add: sc stopNode_nodes)
  qed
qed

lemma stopCurrent_length: "length (nodes (stopCurrent st)) = length (nodes st)"
  by (simp add: stopCurrent_def stopNode_def split: option.splits)

lemma playingNodes_none:
  "(\<And>i. i < length (nodes st) \<Longrightarrow> \<not> playing (nodes st ! i)) \<Longrightarrow> playingNodes st = []"
  by (simp add: playingNodes_def filter_empty_conv)

lemma playingNodes_startSource:
  assumes "\<And>i. i < length (nodes st) \<Longrightarrow> \<not> playing (nodes st ! i)"
  shows "playingNodes (startSource buf st) = [length (nodes st)]"
proof -
  have "filter (\<lambda>i. playing ((nodes st @ [\<lparr>buffer = buf, playing = True, onended = Some SetIsPlayingFalse\<rparr>]) ! i))
          [0..<length (nodes st)] = []"
    using assms by (simp add: filter_empty_conv nth_append)
  then show ?thesis
    by (simp add: playingNodes_def startSource_def Let_def)
qed

lemma sessionInv_startSource:
  assumes "\<And>i. i < length (nodes st) \<Longrightarrow> \<not> playing (nodes st ! i)"
  shows "sessionInv (startSource buf st)"
  using assms by (auto simp: sessionInv_def startSource_def Let_def nth_append less_Suc_eq)

lemma playingNodes_le_1:
  assumes "sessionInv st"
  shows "length (playingNodes st) \<le> 1"
proof (cases "sourceNodeRef st")
  case None
  with assms have "playingNodes st = []"
    by (simp add: playingNodes_def filter_empty_conv sessionInv_def)
  then show ?thesis by simp
next
  case (Some j)
  have d: "distinct (playingNodes st)" by (simp add: playingNodes_def)
  have "set (playingNodes st) \<subseteq> {j}"
    using assms Some by (auto simp: playingNodes_def sessionInv_def)
  then have "card (set (playingNodes st)) \<le> card {j}"
    by (intro card_mono) auto
  with d show ?thesis by (simp add: distinct_card)
qed

lemma speakText_cases:
  "speakText e t st = st
   \<or> (\<exists>err st'. speakText e t st = speakFailed err st' \<and> nodes st' = nodes st
         \<and> sourceNodeRef st' = sourceNodeRef st)
   \<or> (\<exists>buf st'. speakText e t st = startSource buf (stopCurrent st') \<and> nodes st' = nodes st
         \<and> sourceNodeRef st' = sourceNodeRef st)"
proof (cases "t = []")
  case True
  then show ?thesis by (simp add: speakText_def)
next
  case False
  obtain r sent where gs: "generateSpeech e t (selectedVoice st) (calls st) = (r, sent)"
    by (cases "generateSpeech e t (selectedVoice st) (calls st)")
  let ?st2 = "st\<lparr>isPlaying := True, calls := sent\<rparr>"
  let ?st3 = "case audioContextRef ?st2 of
                None \<Rightarrow> ?st2\<lparr>audioContextRef := Some (AudioContext 24000)\<rparr>
              | Some ctx \<Rightarrow> ?st2"
  have st3: "nodes ?st3 = nodes st \<and> sourceNodeRef ?st3 = sourceNodeRef st"
    by (simp split: option.splits)
  show ?thesis
  proof (cases r)
    case (Inl err)
    with False gs have "speakText e t st = speakFailed err ?st2"
      by (simp add: speakText_def Let_def)
    moreover have "nodes ?st2 = nodes st \<and> sourceNodeRef ?st2 = sourceNodeRef st" by simp
    ultimately show ?thesis by blast
  next
    case b: (Inr base64Audio)
    show ?thesis
    proof (cases "decode e base64Audio")
      case (Inl err)
      with False gs b have "speakText e t st = speakFailed err ?st3"
        by (simp add: speakText_def Let_def)
      with st3 show ?thesis by blast
    next
      case bytes: (Inr bytes)
      show ?thesis
      proof (cases "decodeAudioData e bytes 24000 1")
        case (Inl err)
        with False gs b bytes have "speakText e t st = speakFailed err ?st3"
          by (simp add: speakText_def Let_def)
        with st3 show ?thesis by blast
      next
        case (Inr buf)
        with False gs b bytes have "speakText e t st = startSource buf (stopCurrent ?st3)"
          by (simp add: speakText_def Let_def)
        with st3 show ?thesis by blast
      qed
    qed
  qed
qed

lemma speakFailed_audio:
  "nodes (speakFailed err st) = nodes st" "sourceNodeRef (speakFailed err st) = sourceNodeRef st"
  by (simp_all add: speakFailed_def)

lemma sessionInv_speakText:
  assumes "sessionInv st"
  shows "sessionInv (speakText e t st)"
proof -
  consider (same) "speakText e t st = st"
    | (failed) err st' where "speakText e t st = speakFailed err st'" "nodes st' = nodes st"
        "sourceNodeRef st' = sourceNodeRef st"
    | (started) buf st' where "speakText e t st = startSource buf (stopCurrent st')"
        "nodes st' = nodes st" "sourceNodeRef st' = sourceNodeRef st"
    using speakText_cases [of e t st] by blast
  then show ?thesis
  proof cases
    case same
    with assms show ?thesis by simp
  next
    case failed
    with assms show ?thesis
      by (simp add: sessionInv_def speakFailed_audio)
  next
    case started
    from assms started(2,3) have "sessionInv st'" by (simp add: sessionInv_def)
    then have "\<And>i. i < length (nodes (stopCurrent st')) \<Longrightarrow> \<not> playing (nodes (stopCurrent st') ! i)"
      by (rule stopCurrent_silent)
    then show ?thesis
      unfolding started(1) by (rule sessionInv_startSource)
  qed
qed

lemma speakText_started:
  assumes "sessionInv st" and "length (nodes st) < length (nodes (speakText e t st))"
  shows "playingNodes (speakText e t st) = [length (nodes st)]
         \<and> sourceNodeRef (speakText e t st) = Some (length (nodes st))"
proof -
  consider (same) "speakText e t st = st"
    | (failed) err st' where "speakText e t st = speakFailed err st'" "nodes st' = nodes st"
        "sourceNodeRef st' = sourceNodeRef st"
    | (started) buf st' where "speakText e t st = startSource buf (stopCurrent st')"
        "nodes st' = nodes st" "sourceNodeRef st' = sourceNodeRef st"
    using speakText_cases [of e t st] by blast
  then show ?thesis
  proof cases
    case same
    with assms(2) show ?thesis by simp
  next
    case failed
    with assms(2) show ?thesis by (simp add: speakFailed_audio)
  next
    case started
    from assms(1) started(2,3) have "sessionInv st'" by (simp add: sessionInv_def)
    then have silent: "\<And>i. i < length (nodes (stopCurrent st')) \<Longrightarrow> \<not> playing (nodes (stopCurrent st') ! i)"
      by (rule stopCurrent_silent)
    have "playingNodes (startSource buf (stopCurrent st')) = [length (nodes (stopCurrent st'))]"
      using silent by (rule playingNodes_startSource)
    moreover have "sourceNodeRef (startSource buf (stopCurrent st')) = Some (length (nodes (stopCurrent st')))"
      by (simp add: startSource_def Let_def)
    ultimately show ?thesis
      by (simp add: started(1,2) stopCurrent_length)
  qed
qed

lemma saveToHistory_audio:
  "saveToHistory e hist r st = Inr st' \<Longrightarrow> nodes st' = nodes st \<and> sourceNodeRef st' = sourceNodeRef st"
  by (auto simp: saveToHistory_def Let_def split: sum.splits)

lemma handle_audio:
  "(nodes (handleTranslateAndSpeak e st) = nodes st
      \<and> sourceNodeRef (handleTranslateAndSpeak e st) = sourceNodeRef st)
   \<or> (\<exists>t st'. nodes st' = nodes st \<and> sourceNodeRef st' = sourceNodeRef st
         \<and> handleTranslateAndSpeak e st = (speakText e t st')\<lparr>isLoading := False\<rparr>)"
proof (cases "trim (inputText st) = []")
  case True
  then show ?thesis by (simp add: handleTranslateAndSpeak_def)
next
  case False
  obtain r sent where tt:
    "translateText e (inputText st) (sourceLang st) (targetLang st) (calls st) = (r, sent)"
    by (cases "translateText e (inputText st) (sourceLang st) (targetLang st) (calls st)")
  show ?thesis
  proof (cases r)
    case (Inl err)
    with False tt show ?thesis
      by (simp add: handleTranslateAndSpeak_def handleFailed_def)
  next
    case (Inr translation)
    let ?s = "st\<lparr>isLoading := True, error := None, calls := sent, translatedText := translation\<rparr>"
    let ?r = "translationResult (inputText st) translation (sourceLang st) (targetLang st) (Date_now e)"
    show ?thesis
    proof (cases "saveToHistory e (history st) ?r ?s")
      case (Inl err)
      with False tt Inr show ?thesis
        by (simp add: handleTranslateAndSpeak_def handleFailed_def)
    next
      case saved: (Inr st4)
      from saveToHistory_audio [OF saved]
      have "nodes st4 = nodes st \<and> sourceNodeRef st4 = sourceNodeRef st" by simp
      moreover from False tt Inr saved
      have "handleTranslateAndSpeak e st = (speakText e translation st4)\<lparr>isLoading := False\<rparr>"
        by (simp add: handleTranslateAndSpeak_def)
      ultimately show ?thesis by blast
    qed
  qed
qed

lemma sessionInv_handle:
  assumes "sessionInv st"
  shows "sessionInv (handleTranslateAndSpeak e st)"
proof -
  from handle_audio [of e st] show ?thesis
  proof (elim disjE exE conjE)
    assume "nodes (handleTranslateAndSpeak e st) = nodes st"
      and "sourceNodeRef (handleTranslateAndSpeak e st) = sourceNodeRef st"
    with assms show ?thesis by (simp add: sessionInv_def)
  next
    fix t st'
    assume h: "nodes st' = nodes st" "sourceNodeRef st' = sourceNodeRef st"
      "handleTranslateAndSpeak e st = (speakText e t st')\<lparr>isLoading := False\<rparr>"
    from assms h(1,2) have "sessionInv st'" by (simp add: sessionInv_def)
    then have "sessionInv (speakText e t st')" by (rule sessionInv_speakText)
    then show ?thesis by (simp add: h(3) sessionInv_def)
  qed
qed

lemma sessionInv_reachable: "reachable st \<Longrightarrow> sessionInv st"
proof (induction rule: reachable.induct)
  case (mounted e storage)
  show ?case
    by (simp add: sessionInv_def mount_def loadHistory_def initialApp_def split: option.splits sum.splits)
next
  case (submitted st e)
  then show ?case by (simp add: sessionInv_handle)
next
  case (spoken st e t)
  then show ?case by (simp add: sessionInv_speakText)
next
  case (cleared st)
  then show ?case by (simp add: sessionInv_def clearHistory_def)
next
  case (finished st i)
  have "sessionInv (playbackReachesEnd i st)"
  proof (cases "i < length (nodes st) \<and> playing (nodes st ! i)")
    case False
    then have "playbackReachesEnd i st = st" by (simp only: playbackReachesEnd_def if_not_P if_False)
    with finished.IH show ?thesis by simp
  next
    case True
    then have n: "nodes (playbackReachesEnd i st) = (nodes st)[i := (nodes st ! i)\<lparr>playing := False\<rparr>]"
      and r: "sourceNodeRef (playbackReachesEnd i st) = sourceNodeRef st"
      by (simp_all add: playbackReachesEnd_def)
    show ?thesis
      unfolding sessionInv_def n r
    proof (intro allI impI)
      fix k
      assume k: "k < length ((nodes st)[i := (nodes st ! i)\<lparr>playing := False\<rparr>])"
        and p: "playing ((nodes st)[i := (nodes st ! i)\<lparr>playing := False\<rparr>] ! k)"
      from k p have "k \<noteq> i" by (cases "k = i") simp_all
      with k p have "k < length (nodes st) \<and> playing (nodes st ! k)" by simp
      with finished.IH show "sourceNodeRef st = Some k" by (simp add: sessionInv_def)
    qed
  qed
  then show ?case .
next
  case (delivered st)
  have "nodes (dispatchEnded st) = nodes st \<and> sourceNodeRef (dispatchEnded st) = sourceNodeRef st"
    by (simp add: dispatchEnded_def Let_def split: list.splits option.splits handler.splits prod.splits)
  with delivered.IH show ?case by (simp add: sessionInv_def)
qed (simp_all add: sessionInv_def)

lemma speakText_success:
  assumes "t \<noteq> []"
      and "speechModel e t (selectedVoice st) = Inr (Some base64Audio)" and "base64Audio \<noteq> []"
      and "decode e base64Audio = Inr bytes"
      and "decodeAudioData e bytes 24000 1 = Inr audioBuffer"
  shows "length (nodes (speakText e t st)) = Suc (length (nodes st))"
  using assms
  by (simp add: speakText_def generateSpeech_def Let_def startSource_def stopCurrent_length
           split: option.splits)

text \<open>
  C2. In every reachable state at most one node is playing. After the stop of lines 93-96,
  in the state \<^verbatim>\<open>speakText\<close> has reached by then (the flag, the request log and the context
  may have changed), none is. Whenever \<^verbatim>\<open>speakText\<close> creates a node, that node is the only
  one playing afterwards and is the one \<^verbatim>\<open>sourceNodeRef\<close> holds; and it creates one whenever
  the text is not empty and the synthesis and the two decoding steps succeed.
\<close>

theorem one_playback_session:
  assumes "reachable st"
  shows "length (playingNodes st) \<le> 1
         \<and> playingNodes (stopCurrent (st\<lparr>isPlaying := b, calls := sent, audioContextRef := ctx\<rparr>)) = []
         \<and> (length (nodes st) < length (nodes (speakText e t st)) \<longrightarrow>
              playingNodes (speakText e t st) = [length (nodes st)]
              \<and> sourceNodeRef (speakText e t st) = Some (length (nodes st)))
         \<and> (t \<noteq> [] \<and> speechModel e t (selectedVoice st) = Inr (Some base64Audio)
              \<and> base64Audio \<noteq> [] \<and> decode e base64Audio = Inr bytes
              \<and> decodeAudioData e bytes 24000 1 = Inr audioBuffer \<longrightarrow>
              length (nodes st) < length (nodes (speakText e t st)))"
proof -
  have inv: "sessionInv st" using assms by (rule sessionInv_reachable)
  have "sessionInv (st\<lparr>isPlaying := b, calls := sent, audioContextRef := ctx\<rparr>)"
    using inv by (simp add: sessionInv_def)
  then have "playingNodes (stopCurrent (st\<lparr>isPlaying := b, calls := sent, audioContextRef := ctx\<rparr>)) = []"
    by (intro playingNodes_none stopCurrent_silent)
  moreover have "length (playingNodes st) \<le> 1"
    using inv by (rule playingNodes_le_1)
  moreover have "length (nodes st) < length (nodes (speakText e t st)) \<longrightarrow>
              playingNodes (speakText e t st) = [length (nodes st)]
              \<and> sourceNodeRef (speakText e t st) = Some (length (nodes st))"
  proof
    assume "length (nodes st) < length (nodes (speakText e t st))"
    with inv show "playingNodes (speakText e t st) = [length (nodes st)]
              \<and> sourceNodeRef (speakText e t st) = Some (length (nodes st))"
      by (rule speakText_started)
  qed
  moreover have "t \<noteq> [] \<and> speechModel e t (selectedVoice st) = Inr (Some base64Audio)
              \<and> base64Audio \<noteq> [] \<and> decode e base64Audio = Inr bytes
              \<and> decodeAudioData e bytes 24000 1 = Inr audioBuffer \<longrightarrow>
              length (nodes st) < length (nodes (speakText e t st))"
    by (simp add: speakText_success)
  ultimately show ?thesis by blast
qed

text \<open>
  Evaluating the model: every definition a run of the component goes through.
\<close>

lemmas run_defs =
  mount_def loadHistory_def initialApp_def speakText_def generateSpeech_def demoEnv_def
  startSource_def stopCurrent_def stopNode_def dispatchEnded_def playingNodes_def Let_def lit_def

text \<open>A replay started while the first playback is still running.\<close>

theorem one_playback_session_witness:
  "reachable (speakText demoEnv (lit ''Hola'') (mount demoEnv Map.empty))
   \<and> length (nodes (speakText demoEnv (lit ''Hola'') (mount demoEnv Map.empty))) = 1
   \<and> length (nodes (speakText demoEnv (lit ''Adios'') (speakText demoEnv (lit ''Hola'') (mount demoEnv Map.empty)))) = 2
   \<and> playingNodes (speakText demoEnv (lit ''Adios'') (speakText demoEnv (lit ''Hola'') (mount demoEnv Map.empty))) = [1]
   \<and> sourceNodeRef (speakText demoEnv (lit ''Adios'') (speakText demoEnv (lit ''Hola'') (mount demoEnv Map.empty))) = Some 1"
proof -
  let ?st1 = "speakText demoEnv (lit ''Hola'') (mount demoEnv Map.empty)"
  have r: "reachable ?st1"
    by (intro reachable.spoken reachable.mounted)
  have n1: "length (nodes ?st1) = 1"
    by (simp add: run_defs)
  have n2: "length (nodes (speakText demoEnv (lit ''Adios'') ?st1)) = 2"
    by (simp add: run_defs)
  from one_playback_session [OF r, where e = demoEnv and t = "lit ''Adios''"] n1 n2
  have "playingNodes (speakText demoEnv (lit ''Adios'') ?st1) = [1]
      \<and> sourceNodeRef (speakText demoEnv (lit ''Adios'') ?st1) = Some 1"
    by simp
  with r n1 n2 show ?thesis by blast
qed

text \<open>
  C8. The claim fails on the code. Two replays in a row, the second while the first is
  playing: the stop of line 95 queues the \<^verbatim>\<open>ended\<close> event of the first node, whose handler
  is still installed; when the browser delivers it, \<^verbatim>\<open>isPlaying\<close> becomes false although the
  second node is playing.
\<close>

theorem preempted_session_notifies:
  "playingNodes (speakText demoEnv (lit ''Hola'') (mount demoEnv Map.empty)) = [0]
   \<and> events (speakText demoEnv (lit ''Hola'') (mount demoEnv Map.empty)) = []
   \<and> playingNodes (speakText demoEnv (lit ''Hola'') (speakText demoEnv (lit ''Hola'') (mount demoEnv Map.empty))) = [1]
   \<and> events (speakText demoEnv (lit ''Hola'') (speakText demoEnv (lit ''Hola'') (mount demoEnv Map.empty))) = [(0, Stopped)]
   \<and> isPlaying (speakText demoEnv (lit ''Hola'') (speakText demoEnv (lit ''Hola'') (mount demoEnv Map.empty)))
   \<and> playingNodes (dispatchEnded (speakText demoEnv (lit ''Hola'') (speakText demoEnv (lit ''Hola'') (mount demoEnv Map.empty)))) = [1]
   \<and> \<not> isPlaying (dispatchEnded (speakText demoEnv (lit ''Hola'') (speakText demoEnv (lit ''Hola'') (mount demoEnv Map.empty))))"
  by (simp add: run_defs upt_rec)

section \<open>The PCM decoder\<close>

lemma pcm16_take: "pcm16 (take (2 * k) bytes) = take k (pcm16 bytes)"
proof (induction bytes arbitrary: k rule: pcm16.induct)
  case (1 lo hi rest)
  show ?case
  proof (cases k)
    case 0
    then show ?thesis by simp
  next
    case (Suc m)
    with "1.IH" [of m] show ?thesis by (simp add: Let_def)
  qed
next
  case (2 b)
  show ?case by (cases k) simp_all
next
  case 3
  show ?case by simp
qed

lemma frames_fit:
  assumes "1 \<le> (c::nat)" and "i < n div 2 div c" and "ch < c"
  shows "i * c + ch < c * (n div 2 div c)"
proof -
  from assms(2) have "Suc i \<le> n div 2 div c" by simp
  then have "Suc i * c \<le> (n div 2 div c) * c" by (rule mult_le_mono1)
  with assms(3) show ?thesis by (simp add: mult.commute)
qed

lemma frames_whole: "1 \<le> (c::nat) \<Longrightarrow> 2 * c * f div 2 div c = f"
proof -
  assume "1 \<le> c"
  have "2 * c * f div 2 = c * f" by simp
  with \<open>1 \<le> c\<close> show ?thesis by simp
qed

lemma whole_frames_le: "2 * (c::nat) * (n div 2 div c) \<le> n"
proof -
  have "c * (n div 2 div c) \<le> n div 2" by simp
  then have "2 * (c * (n div 2 div c)) \<le> 2 * (n div 2)" by (rule mult_le_mono2)
  also have "\<dots> \<le> n" by simp
  finally show ?thesis by (simp add: mult.assoc)
qed

text \<open>
  C5. For a channel count of at least 1: fewer than 2 bytes give \<open>EmptyAudioError\<close>, for 0
  bytes as for 1; from 2 bytes on the result is a buffer with that many channels, each of
  \<open>length div 2 div channelCount\<close> frames; a single channel of an even number of bytes has
  half as many samples as bytes; and the bytes behind the last whole frame do not change
  the result.
\<close>

theorem bytesToAudioBuffer_frames:
  assumes c: "1 \<le> c"
  shows "(length bytes < 2 \<longrightarrow> bytesToAudioBuffer bytes rate c = Inl EmptyAudioError)
       \<and> (2 \<le> length bytes \<longrightarrow>
            (\<exists>buf. bytesToAudioBuffer bytes rate c = Inr buf
               \<and> numberOfChannels buf = c \<and> sampleRate buf = rate
               \<and> length (channelData buf) = c
               \<and> (\<forall>plane \<in> set (channelData buf). length plane = length bytes div 2 div c)))
       \<and> (2 \<le> length bytes \<and> even (length bytes) \<longrightarrow>
            (\<exists>buf plane. bytesToAudioBuffer bytes rate 1 = Inr buf \<and> channelData buf = [plane]
               \<and> 2 * length plane = length bytes))
       \<and> (1 \<le> length bytes div 2 div c \<longrightarrow>
            bytesToAudioBuffer (take (2 * c * (length bytes div 2 div c)) bytes) rate c
              = bytesToAudioBuffer bytes rate c)"
proof (intro conjI impI)
  show "bytesToAudioBuffer bytes rate c = Inl EmptyAudioError" if "length bytes < 2"
    using that by (simp add: bytesToAudioBuffer_def)
next
  assume "2 \<le> length bytes"
  then show "\<exists>buf. bytesToAudioBuffer bytes rate c = Inr buf
               \<and> numberOfChannels buf = c \<and> sampleRate buf = rate
               \<and> length (channelData buf) = c
               \<and> (\<forall>plane \<in> set (channelData buf). length plane = length bytes div 2 div c)"
    by (auto simp: bytesToAudioBuffer_def Let_def)
next
  assume "2 \<le> length bytes \<and> even (length bytes)"
  then show "\<exists>buf plane. bytesToAudioBuffer bytes rate 1 = Inr buf \<and> channelData buf = [plane]
               \<and> 2 * length plane = length bytes"
    by (auto simp: bytesToAudioBuffer_def Let_def)
next
  let ?f = "length bytes div 2 div c"
  let ?whole = "take (2 * c * ?f) bytes"
  assume f: "1 \<le> ?f"
  have le: "2 * c * ?f \<le> length bytes" by (rule whole_frames_le)
  then have len: "length ?whole = 2 * c * ?f" by simp
  have cf: "1 \<le> c * ?f" using c f by simp
  have "2 * 1 \<le> 2 * (c * ?f)" using cf by (rule mult_le_mono2)
  then have "2 \<le> 2 * c * ?f" by (simp add: mult.assoc)
  then have two: "2 \<le> length ?whole" "2 \<le> length bytes" using len le by linarith+
  have fw: "length ?whole div 2 div c = ?f"
    using c by (simp only: len frames_whole)
  have samples: "pcm16 ?whole = take (c * ?f) (pcm16 bytes)"
    using pcm16_take [of "c * ?f" bytes] by (simp add: mult.assoc)
  have "map (\<lambda>channel. map (\<lambda>i. real_of_int (pcm16 ?whole ! (i * c + channel)) / 32768) [0..<?f]) [0..<c]
      = map (\<lambda>channel. map (\<lambda>i. real_of_int (pcm16 bytes ! (i * c + channel)) / 32768) [0..<?f]) [0..<c]"
  proof (intro map_cong refl)
    fix channel i
    assume "channel \<in> set [0..<c]" and "i \<in> set [0..<?f]"
    then have "i * c + channel < c * ?f"
      using c by (simp add: frames_fit)
    then show "real_of_int (pcm16 ?whole ! (i * c + channel)) / 32768
             = real_of_int (pcm16 bytes ! (i * c + channel)) / 32768"
      by (simp add: samples)
  qed
  then show "bytesToAudioBuffer ?whole rate c = bytesToAudioBuffer bytes rate c"
    using two by (simp add: bytesToAudioBuffer_def Let_def fw del: length_take)
qed

text \<open>
  Five bytes on one channel: the samples -32768 and 32767, and one byte left over.
\<close>

theorem bytesToAudioBuffer_frames_witness:
  "(1::nat) \<le> 1
   \<and> bytesToAudioBuffer [] 24000 1 = Inl EmptyAudioError
   \<and> bytesToAudioBuffer [0x34] 24000 1 = Inl EmptyAudioError
   \<and> bytesToAudioBuffer [0x00, 0x80, 0xFF, 0x7F, 0x12] 24000 1
       = Inr \<lparr>numberOfChannels = 1, sampleRate = 24000, channelData = [[- 1, 32767 / 32768]]\<rparr>
   \<and> bytesToAudioBuffer [0x00, 0x80, 0xFF, 0x7F] 24000 1
       = bytesToAudioBuffer [0x00, 0x80, 0xFF, 0x7F, 0x12] 24000 1"
proof -
  have c: "(1::nat) \<le> 1" by simp
  have v: "bytesToAudioBuffer [0x00, 0x80, 0xFF, 0x7F, 0x12] 24000 1
       = Inr \<lparr>numberOfChannels = 1, sampleRate = 24000, channelData = [[- 1, 32767 / 32768]]\<rparr>"
    by (simp add: bytesToAudioBuffer_def Let_def upt_rec)
  from bytesToAudioBuffer_frames [OF c, of "[]" 24000]
  have e0: "bytesToAudioBuffer [] 24000 1 = Inl EmptyAudioError" by simp
  from bytesToAudioBuffer_frames [OF c, of "[0x34]" 24000]
  have e1: "bytesToAudioBuffer [0x34] 24000 1 = Inl EmptyAudioError" by simp
  from bytesToAudioBuffer_frames [OF c, of "[0x00, 0x80, 0xFF, 0x7F, 0x12]" 24000]
  have "bytesToAudioBuffer [0x00, 0x80, 0xFF, 0x7F] 24000 1
       = bytesToAudioBuffer [0x00, 0x80, 0xFF, 0x7F, 0x12] 24000 1"
    by simp
  with c v e0 e1 show ?thesis by blast
qed

end
